theory Spec2Isabelle
  imports Main
begin

section \<open>Data model\<close>

text \<open>
  A \<open>Connector\<close> is a Go interface with the two methods \<open>Driver()\<close> and
  \<open>ConnectionString()\<close>; connectors are compared with \<open>==\<close>. The model keeps what the
  interface exposes: the two strings. \<open>MockConnector\<close> and \<open>SqlmockConnector\<close> are the two
  implementations of \<open>mocks.go\<close>.
\<close>

datatype connector = Connector (Driver: string) (ConnectionString: string)

definition MockConnector :: "string \<Rightarrow> connector" where
  "MockConnector s = Connector ''mock'' s"

definition SqlmockConnector :: "string \<Rightarrow> connector" where
  "SqlmockConnector s = Connector ''sqlmock'' s"

text \<open>
  Errors. \<open>ErrBadConn\<close> is \<open>driver.ErrBadConn\<close>, \<open>ErrorsNew\<close> an opaque error made by
  \<open>errors.New\<close>, \<open>Wrapf\<close> an error that wraps another one (\<open>fmt.Errorf\<close> with \<open>%w\<close>),
  \<open>JoinError\<close> the value \<open>errors.Join\<close> builds, \<open>Error\<close> the string error type of
  \<open>errors.go\<close>. The four struct errors of \<open>errors.go\<close> embed the error they wrap;
  \<open>ConnectionFailedError\<close> is built around the result of \<open>errors.Join\<close>, which may be
  \<open>nil\<close>.
\<close>

datatype error =
    ErrBadConn
  | ErrorsNew string
  | Wrapf string error
  | JoinError "error list"
  | Error string
  | ConfigurationError error
  | ConnectionFailedError "error option"
  | ConnectionError connector string error
  | TransactionError (txn: string) (op: string) (cause: error)

definition ErrWithDbAndWithConnectorsIsInvalid :: error where
  "ErrWithDbAndWithConnectorsIsInvalid = Error ''cannot use WithConnector(s) when using WithDb''"




text \<open>
  \<open>errors.Join\<close> drops the \<open>nil\<close> arguments and returns \<open>nil\<close> when nothing is left.
\<close>

definition errors_Join :: "error option list \<Rightarrow> error option" where
  "errors_Join errs =
     (let es = List.map_filter id errs in if es = [] then None else Some (JoinError es))"

text \<open>
  \<open>errors.Is err driver.ErrBadConn\<close>: the target is a comparable sentinel, none of the
  \<open>Is\<close> methods of \<open>errors.go\<close> accepts it (each one asks for its own struct type), so the
  search follows \<open>Unwrap\<close> through the error tree.
\<close>

fun is_bad_conn :: "error \<Rightarrow> bool" where
  "is_bad_conn ErrBadConn = True"
| "is_bad_conn (ErrorsNew s) = False"
| "is_bad_conn (Wrapf s e) = is_bad_conn e"
| "is_bad_conn (JoinError es) = (\<exists>e \<in> set es. is_bad_conn e)"
| "is_bad_conn (Error s) = False"
| "is_bad_conn (ConfigurationError e) = is_bad_conn e"
| "is_bad_conn (ConnectionFailedError None) = False"
| "is_bad_conn (ConnectionFailedError (Some e)) = is_bad_conn e"
| "is_bad_conn (ConnectionError c s e) = is_bad_conn e"
| "is_bad_conn (TransactionError n s e) = is_bad_conn e"

text \<open>
  Handles. A \<open>*sql.DB\<close> and a \<open>*sql.Tx\<close> are pointers to objects of the standard library;
  the model names each object by a number and keeps a \<open>nil\<close> pointer as \<open>None\<close>.
\<close>

datatype db = DB nat
datatype tx = Tx nat

text \<open>
  A call that may panic either panics or returns its value.
\<close>

datatype 'a exec = Panicked | Done 'a

text \<open>
  The fields \<open>connect\<close> and \<open>trymethod\<close> of \<open>connection\<close> hold a method of the connection
  itself; the model keeps which one, or that the field was never set.
\<close>

datatype connect_fn = connect_nil | connectdb_fn | connectany_fn
datatype trymethod = trymethod_nil | noretry | retry

record connection =
  db :: "db option"
  pingTimeout :: int
  connectors :: "connector list"
  mru :: int
  configure :: "(db option \<Rightarrow> error option) option"
  connect :: connect_fn
  "open" :: "string \<Rightarrow> string \<Rightarrow> error + db"
  trymethod :: trymethod

text \<open>
  What the standard library and the driver do behind a handle is the environment:
  \<open>sql.Open\<close>, the outcome of pinging and closing a database handle, of beginning a transaction on
  it, of committing and rolling back a transaction, and the text \<open>debug.Stack\<close> returns.
  The outcome of a call depends on the handle only: the environment does not change
  while one operation of the connection runs.
\<close>

record env =
  sql_Open :: "string \<Rightarrow> string \<Rightarrow> error + db"
  PingContext :: "db \<Rightarrow> error option"
  Close :: "db \<Rightarrow> error option"
  BeginTx :: "db \<Rightarrow> error + tx"
  Commit :: "tx \<Rightarrow> error option"
  Rollback :: "tx \<Rightarrow> error option"
  Stack :: string

section \<open>The rotation algorithm\<close>

text \<open>
  Go's \<open>%\<close> truncates towards zero: the remainder has the sign of the dividend.
\<close>

definition go_rem :: "int \<Rightarrow> int \<Rightarrow> int" where
  "go_rem a b = sgn a * (\<bar>a\<bar> mod \<bar>b\<bar>)"

text \<open>
  The loop of \<open>connectany\<close>. \<open>i\<close> counts the iterations, \<open>ix\<close> is the index probed last,
  \<open>errs\<close> the slice of errors. \<open>c.connectors[ix]\<close> panics when \<open>ix\<close> is out of range.
  The result also lists the indices that were probed, in the order of the calls of
  \<open>c.open\<close>; the Go code keeps no such list, it is there to state in which order the
  candidates are tried.
\<close>

record loop_state =
  conn :: connection
  errs :: "error option list"
  probed :: "int list"

function connectany_loop ::
  "env \<Rightarrow> connection \<Rightarrow> nat \<Rightarrow> int \<Rightarrow> error option list \<Rightarrow> int list \<Rightarrow> loop_state exec"
where
  "connectany_loop E c i ix es ps =
     (if i < length (connectors c) then
        (let ix' = go_rem (ix + 1) (int (length (connectors c))) in
         if ix' < 0 \<or> int (length (connectors c)) \<le> ix' then Panicked
         else
           (let cnc = connectors c ! nat ix' in
            case open c (Driver cnc) (ConnectionString cnc) of
              Inl err \<Rightarrow>
                connectany_loop E c (i + 1) ix'
                  (es @ [Some (ConnectionError cnc ''open db'' err)]) (ps @ [ix'])
            | Inr d \<Rightarrow>
                (case PingContext E d of
                   Some err \<Rightarrow>
                     connectany_loop E c (i + 1) ix'
                       (es @ [Some (ConnectionError cnc ''ping'' err)]) (ps @ [ix'])
                 | None \<Rightarrow>
                     Done \<lparr>conn = c\<lparr>db := Some d, mru := ix'\<rparr>, errs = es, probed = ps @ [ix']\<rparr>)))
      else Done \<lparr>conn = c, errs = es, probed = ps\<rparr>)"
  by pat_completeness auto
termination
  by (relation "measure (\<lambda>(E, c, i, ix, es, ps). length (connectors c) - i)") auto

declare connectany_loop.simps [simp del]

text \<open>
  One pass of the rotation, as \<open>connectany\<close> starts it: \<open>ix\<close> begins at \<open>c.mru\<close> and
  \<open>errs\<close> is made with \<open>len(c.connectors)\<close> \<open>nil\<close> entries.
\<close>

definition rotation_pass :: "env \<Rightarrow> connection \<Rightarrow> loop_state exec" where
  "rotation_pass E c =
     connectany_loop E c 0 (mru c) (replicate (length (connectors c)) None) []"

text \<open>
  \<open>connectany\<close>: the loop, then the test \<open>c.mru == curr\<close>, then the configuration hook.
  The result is the error returned (or a panic) and the connection as the call leaves it.
\<close>

definition connectany :: "env \<Rightarrow> connection \<Rightarrow> error option exec \<times> connection" where
  "connectany E c =
     (let curr = mru c in
      case rotation_pass E c of
        Panicked \<Rightarrow> (Panicked, c)
      | Done st \<Rightarrow>
          (let c' = conn st in
           if mru c' = curr then (Done (Some (ConnectionFailedError (errors_Join (errs st)))), c')
           else
             (case configure c' of
                None \<Rightarrow> (Done None, c')
              | Some f \<Rightarrow>
                  (case f (db c') of
                     Some err \<Rightarrow> (Done (Some (ConfigurationError err)), c')
                   | None \<Rightarrow> (Done None, c')))))"

text \<open>
  \<open>close\<close>: forgets the handle and closes it; the error of \<open>Close\<close> is returned unless
  \<open>force\<close> is set.
\<close>

definition close :: "env \<Rightarrow> connection \<Rightarrow> bool \<Rightarrow> error option \<times> connection" where
  "close E c force =
     (case db c of
        Some d \<Rightarrow>
          (let c' = c\<lparr>db := None\<rparr> in
           case Close E d of
             Some err \<Rightarrow> if \<not> force then (Some err, c') else (None, c')
           | None \<Rightarrow> (None, c'))
      | None \<Rightarrow> (None, c))"

text \<open>
  \<open>reconnect\<close>: \<open>c.close(true)\<close>, then \<open>c.connect(ctx)\<close>. Calling a \<open>nil\<close> function value
  panics. \<open>connectdb\<close> is \<open>c.Ping\<close>, whose operation calls \<open>PingContext\<close> on \<open>c.db\<close>; after
  \<open>close\<close> that handle is \<open>nil\<close> and the call dereferences it, whichever retry strategy
  runs the operation.
\<close>

definition reconnect :: "env \<Rightarrow> connection \<Rightarrow> error option exec \<times> connection" where
  "reconnect E c =
     (let c' = snd (close E c True) in
      case connect c' of
        connectany_fn \<Rightarrow> connectany E c'
      | connectdb_fn \<Rightarrow> (Panicked, c')
      | connect_nil \<Rightarrow> (Panicked, c'))"

section \<open>The retry strategies\<close>

text \<open>
  An operation is a Go closure \<open>func(*sql.DB) error\<close>: it receives the handle, may change
  the variables it captured (the state \<open>'s\<close>), may panic, and otherwise returns an error
  or \<open>nil\<close>.
\<close>

type_synonym 's operation = "db option \<Rightarrow> 's \<Rightarrow> error option exec \<times> 's"

text \<open>
  What a call of \<open>try\<close> leaves behind: its result, the connection, the captured variables
  of the operation, and two counters the Go code does not keep: how often the operation
  was invoked and how often \<open>reconnect\<close> was called.
\<close>

record 's try_result =
  result :: "error option exec"
  tconn :: connection
  closure :: 's
  calls :: nat
  rotations :: nat

definition noretry_try :: "'s operation \<Rightarrow> connection \<Rightarrow> 's \<Rightarrow> 's try_result" where
  "noretry_try f c s =
     (case f (db c) s of
        (r, s') \<Rightarrow> \<lparr>result = r, tconn = c, closure = s', calls = 1, rotations = 0\<rparr>)"

text \<open>
  The loop of \<open>retry.try\<close> has no bound of its own; a run that never returns is \<open>None\<close>.
  \<open>n\<close> and \<open>r\<close> are the two counters.
\<close>

partial_function (option) retry_loop ::
  "env \<Rightarrow> 's operation \<Rightarrow> connection \<Rightarrow> 's \<Rightarrow> nat \<Rightarrow> nat \<Rightarrow> 's try_result option"
where
  "retry_loop E f c s n r =
     (case f (db c) s of
        (Panicked, s') \<Rightarrow>
          Some \<lparr>result = Panicked, tconn = c, closure = s', calls = n + 1, rotations = r\<rparr>
      | (Done None, s') \<Rightarrow>
          Some \<lparr>result = Done None, tconn = c, closure = s', calls = n + 1, rotations = r\<rparr>
      | (Done (Some err), s') \<Rightarrow>
          if \<not> is_bad_conn err then
            Some \<lparr>result = Done (Some err), tconn = c, closure = s', calls = n + 1,
                  rotations = r\<rparr>
          else
            (case reconnect E c of
               (Panicked, c') \<Rightarrow>
                 Some \<lparr>result = Panicked, tconn = c', closure = s', calls = n + 1,
                       rotations = r + 1\<rparr>
             | (Done (Some cncerr), c') \<Rightarrow>
                 Some \<lparr>result = Done (errors_Join [Some err, Some cncerr]), tconn = c',
                       closure = s', calls = n + 1, rotations = r + 1\<rparr>
             | (Done None, c') \<Rightarrow> retry_loop E f c' s' (n + 1) (r + 1)))"

definition retry_try :: "env \<Rightarrow> 's operation \<Rightarrow> connection \<Rightarrow> 's \<Rightarrow> 's try_result option" where
  "retry_try E f c s = retry_loop E f c s 0 0"

text \<open>
  \<open>c.try\<close> goes through the embedded \<open>trymethod\<close>; a \<open>nil\<close> interface panics. (The
  name \<open>try\<close> is taken in Isabelle.)
\<close>

definition try_call :: "env \<Rightarrow> 's operation \<Rightarrow> connection \<Rightarrow> 's \<Rightarrow> 's try_result option" where
  "try_call E f c s =
     (case trymethod c of
        noretry \<Rightarrow> Some (noretry_try f c s)
      | retry \<Rightarrow> retry_try E f c s
      | trymethod_nil \<Rightarrow>
          Some \<lparr>result = Panicked, tconn = c, closure = s, calls = 0, rotations = 0\<rparr>)"

section \<open>Transactions\<close>

text \<open>
  The unit of work of \<open>Transact\<close> is called once; it returns an error or \<open>nil\<close>, or it
  panics. The model also lists the calls made on the transaction handle, which the Go
  code does not record.
\<close>

datatype exit = Returns "error option" | Panics
datatype tx_call = CommitCall | RollbackCall

text \<open>
  The closure \<open>Transact\<close> passes to \<open>try\<close>: it assigns the captured variable \<open>tx\<close>.
\<close>

definition begin_op :: "env \<Rightarrow> tx option operation" where
  "begin_op E d s =
     (case d of
        None \<Rightarrow> (Panicked, s)
      | Some h \<Rightarrow>
          (case BeginTx E h of
             Inl err \<Rightarrow> (Done (Some err), None)
           | Inr t \<Rightarrow> (Done None, Some t)))"

text \<open>
  The deferred function of \<open>Transact\<close>. \<open>recovered\<close> says that \<open>recover()\<close> returned a
  panic value, \<open>rollback\<close> is the flag, \<open>err\<close> the named result when the function runs.
  A panic inside the deferred function itself (\<open>Rollback\<close> on a \<open>nil\<close> handle) is not
  recovered.
\<close>

definition deferred ::
  "env \<Rightarrow> string \<Rightarrow> tx option \<Rightarrow> bool \<Rightarrow> bool \<Rightarrow> error option \<Rightarrow> tx_call list
     \<Rightarrow> error option exec \<times> tx_call list"
where
  "deferred E name t recovered rollback err cs =
     (let err1 = (if recovered then Some (TransactionError name ''panic'' (ErrorsNew (Stack E)))
                  else err) in
      if \<not> rollback then (Done err1, cs)
      else
        (case t of
           None \<Rightarrow> (Panicked, cs)
         | Some h \<Rightarrow>
             (case Rollback E h of
                Some txerr \<Rightarrow>
                  (Done (errors_Join [err1, Some (TransactionError name ''rollback'' txerr)]),
                   cs @ [RollbackCall])
              | None \<Rightarrow> (Done err1, cs @ [RollbackCall]))))"

text \<open>
  \<open>Transact\<close> from the point where \<open>try\<close> has returned \<open>nil\<close>: the unit of work, the
  commit, and the deferred function on every way out.
\<close>

definition transact_tx ::
  "env \<Rightarrow> string \<Rightarrow> tx option \<Rightarrow> (tx option \<Rightarrow> exit) \<Rightarrow> error option exec \<times> tx_call list"
where
  "transact_tx E name t uow =
     (case uow t of
        Panics \<Rightarrow> deferred E name t True True None []
      | Returns (Some err) \<Rightarrow>
          deferred E name t False True (Some (TransactionError name '''' err)) []
      | Returns None \<Rightarrow>
          (case t of
             None \<Rightarrow> deferred E name t True False None []
           | Some h \<Rightarrow>
               (case Commit E h of
                  Some err \<Rightarrow>
                    deferred E name t False False
                      (Some (TransactionError name ''commit'' err)) [CommitCall]
                | None \<Rightarrow> deferred E name t False False None [CommitCall])))"

record transact_result =
  terr :: "error option exec"
  tx_calls :: "tx_call list"
  after :: connection

definition Transact ::
  "env \<Rightarrow> connection \<Rightarrow> string \<Rightarrow> (tx option \<Rightarrow> exit) \<Rightarrow> transact_result option"
where
  "Transact E c name uow =
     (case try_call E (begin_op E) c None of
        None \<Rightarrow> None
      | Some r \<Rightarrow>
          (case result r of
             Panicked \<Rightarrow> Some \<lparr>terr = Panicked, tx_calls = [], after = tconn r\<rparr>
           | Done (Some err) \<Rightarrow>
               Some \<lparr>terr = Done (Some (TransactionError name ''begin'' err)), tx_calls = [],
                     after = tconn r\<rparr>
           | Done None \<Rightarrow>
               (case transact_tx E name (closure r) uow of
                  (e, cs) \<Rightarrow> Some \<lparr>terr = e, tx_calls = cs, after = tconn r\<rparr>)))"

section \<open>Configuration\<close>

text \<open>
  A \<open>ConfigurationFunc\<close> changes the connection it is given and returns an error or \<open>nil\<close>.
\<close>

type_synonym ConfigurationFunc = "connection \<Rightarrow> error option \<times> connection"

definition WithConnector :: "connector \<Rightarrow> ConfigurationFunc" where
  "WithConnector x cnc =
     (if db cnc \<noteq> None then (Some ErrWithDbAndWithConnectorsIsInvalid, cnc)
      else if x \<notin> set (connectors cnc) then (None, cnc\<lparr>connectors := connectors cnc @ [x]\<rparr>)
      else (None, cnc))"

fun add_connectors :: "connector list \<Rightarrow> connection \<Rightarrow> connection" where
  "add_connectors [] cnc = cnc"
| "add_connectors (x # xs) cnc =
     add_connectors xs
       (if x \<notin> set (connectors cnc) then cnc\<lparr>connectors := connectors cnc @ [x]\<rparr> else cnc)"












section \<open>Notions used to state the properties\<close>

text \<open>
  What opening and pinging the candidate at index \<open>k\<close> yields: the error \<open>connectany\<close>
  records for it, or the handle.
\<close>

definition probe :: "env \<Rightarrow> connection \<Rightarrow> nat \<Rightarrow> error + db" where
  "probe E c k =
     (let cnc = connectors c ! k in
      case open c (Driver cnc) (ConnectionString cnc) of
        Inl err \<Rightarrow> Inl (ConnectionError cnc ''open db'' err)
      | Inr d \<Rightarrow>
          (case PingContext E d of
             Some err \<Rightarrow> Inl (ConnectionError cnc ''ping'' err)
           | None \<Rightarrow> Inr d))"

definition probe_ok :: "env \<Rightarrow> connection \<Rightarrow> nat \<Rightarrow> bool" where
  "probe_ok E c k = (case probe E c k of Inl _ \<Rightarrow> False | Inr _ \<Rightarrow> True)"

text \<open>
  The order of a rotation pass as the specification gives it: \<open>(m+1) mod n\<close>,
  \<open>(m+2) mod n\<close>, ..., \<open>(m+n) mod n\<close>.
\<close>

definition rotation_order :: "int \<Rightarrow> nat \<Rightarrow> int list" where
  "rotation_order m n = map (\<lambda>i. (m + int i) mod int n) [1..<Suc n]"

text \<open>
  Trying the candidates of a list one after the other, up to the first that succeeds.
\<close>

fun scan :: "env \<Rightarrow> connection \<Rightarrow> int list \<Rightarrow> error option list \<Rightarrow> int list \<Rightarrow> loop_state" where
  "scan E c [] es ps = \<lparr>conn = c, errs = es, probed = ps\<rparr>"
| "scan E c (k # ks) es ps =
     (case probe E c (nat k) of
        Inl err \<Rightarrow> scan E c ks (es @ [Some err]) (ps @ [k])
      | Inr d \<Rightarrow> \<lparr>conn = c\<lparr>db := Some d, mru := k\<rparr>, errs = es, probed = ps @ [k]\<rparr>)"

text \<open>
  A list without its repetitions: of each element the first occurrence stays.
\<close>

definition first_occurrences :: "'a list \<Rightarrow> 'a list" where
  "first_occurrences xs = rev (remdups (rev xs))"

text \<open>
  The invariant of \<open>mru\<close>: \<open>-1\<close> or an index of \<open>connectors\<close>.
\<close>

definition mru_valid :: "connection \<Rightarrow> bool" where
  "mru_valid c = (mru c = - 1 \<or> (0 \<le> mru c \<and> mru c < int (length (connectors c))))"

section \<open>Example inputs\<close>

text \<open>
  A small world for concrete runs: only the connection string \<open>a\<close> can be opened, every
  ping, close, begin, commit and rollback succeeds.
\<close>

definition open_only_a :: "string \<Rightarrow> string \<Rightarrow> error + db" where
  "open_only_a d cs = (if cs = ''a'' then Inr (DB 1) else Inl (ErrorsNew ''open error''))"

definition open_none :: "string \<Rightarrow> string \<Rightarrow> error + db" where
  "open_none d cs = Inl (ErrorsNew ''open error'')"

definition example_env :: env where
  "example_env =
     \<lparr>sql_Open = open_only_a, PingContext = (\<lambda>d. None), Close = (\<lambda>d. None),
      BeginTx = (\<lambda>d. Inr (Tx 7)), Commit = (\<lambda>t. None), Rollback = (\<lambda>t. None),
      Stack = ''goroutine 1 [running]''\<rparr>"

definition rollback_fails_env :: env where
  "rollback_fails_env = example_env\<lparr>Rollback := (\<lambda>t. Some (ErrorsNew ''rollback error''))\<rparr>"

text \<open>
  A connection with the connectors \<open>a\<close> and \<open>b\<close>, connected through \<open>a\<close> (index 0), as
  \<open>NewConnection\<close> leaves it for two connectors.
\<close>

definition example_conn :: connection where
  "example_conn =
     \<lparr>db = Some (DB 0), pingTimeout = 0,
      connectors = [MockConnector ''a'', MockConnector ''b''], mru = 0, configure = None,
      connect = connectany_fn, open = open_only_a, trymethod = retry\<rparr>"

definition three_conn :: connection where
  "three_conn =
     example_conn\<lparr>connectors := [MockConnector ''a'', MockConnector ''b'', MockConnector ''c'']\<rparr>"

text \<open>
  The same connection when no connection string can be opened.
\<close>

definition unreachable_conn :: connection where
  "unreachable_conn = example_conn\<lparr>open := open_none\<rparr>"


text \<open>
  A connection with the single connector \<open>a\<close>, as \<open>NewConnection\<close> leaves it: no retry.
\<close>

definition single_conn :: connection where
  "single_conn =
     \<lparr>db = Some (DB 1), pingTimeout = 0, connectors = [MockConnector ''a''], mru = 0,
      configure = None, connect = connectany_fn, open = open_only_a, trymethod = noretry\<rparr>"

text \<open>
  Units of work: one returns \<open>nil\<close>, one returns an error, one panics.
\<close>

definition uow_ok :: "tx option \<Rightarrow> exit" where
  "uow_ok t = Returns None"

definition uow_fails :: "tx option \<Rightarrow> exit" where
  "uow_fails t = Returns (Some (ErrorsNew ''operation error''))"

definition uow_panics :: "tx option \<Rightarrow> exit" where
  "uow_panics t = Panics"


text \<open>
  Operations that count their invocations in a captured variable: one fails with
  \<open>driver.ErrBadConn\<close> the first time and succeeds afterwards, one always fails with
  an error of the statement.
\<close>

definition flaky :: "nat operation" where
  "flaky d n = (if n = 0 then Done (Some ErrBadConn) else Done None, n + 1)"

definition failing_op :: "nat operation" where
  "failing_op d n = (Done (Some (ErrorsNew ''sql error'')), n + 1)"

section \<open>The loop of the rotation, candidate by candidate\<close>

text \<open>
  As long as \<open>mru\<close> is \<open>-1\<close> or an index, \<open>ix + 1\<close> is not negative and Go's remainder
  is the mathematical one; \<open>ix + 1\<close> then stays far below the 64-bit bound of Go's
  \<open>int\<close>, which is why the model computes in the integers. The loop then visits the
  candidates of the rotation order one after the other.
\<close>

lemma go_rem_nonneg: "0 \<le> a \<Longrightarrow> 0 < b \<Longrightarrow> go_rem a b = a mod b"
  by (cases "a = 0") (simp_all add: go_rem_def)

lemma cand_mod: "((ix + 1) mod n + int j) mod n = (ix + int (Suc j)) mod (n::int)"
proof -
  have "((ix + 1) mod n + int j) mod n = ((ix + 1) + int j) mod n"
    by (rule mod_add_left_eq)
  then show ?thesis by (simp add: algebra_simps)
qed

lemma cand_step:
  assumes "i < n"
  shows "map (\<lambda>j. (ix + int j) mod int n) [1..<Suc (n - i)] =
         ((ix + 1) mod int n) # map (\<lambda>j. ((ix + 1) mod int n + int j) mod int n) [1..<Suc (n - Suc i)]"
proof -
  from assms obtain k where k: "n - i = Suc k" by (cases "n - i") auto
  then have k': "n - Suc i = k" by simp
  have "[1..<Suc (Suc k)] = 1 # map Suc [1..<Suc k]"
    by (metis One_nat_def map_Suc_upt upt_conv_Cons zero_less_Suc Suc_less_eq)
  then have "map (\<lambda>j. (ix + int j) mod int n) [1..<Suc (Suc k)] =
      (ix + 1) mod int n # map (\<lambda>j. (ix + int (Suc j)) mod int n) [1..<Suc k]"
    by (simp add: o_def del: upt_Suc)
  then show ?thesis
    unfolding k k' cand_mod .
qed

lemma loop_scan:
  "- 1 \<le> ix \<Longrightarrow> ix < int (length (connectors c)) \<Longrightarrow> i \<le> length (connectors c) \<Longrightarrow>
   connectany_loop E c i ix es ps =
     Done (scan E c (map (\<lambda>j. (ix + int j) mod int (length (connectors c))) [1..<Suc (length (connectors c) - i)]) es ps)"
proof (induction E c i ix es ps rule: connectany_loop.induct)
  case (1 E c i ix es ps)
  let ?n = "length (connectors c)"
  show ?case
  proof (cases "i < ?n")
    case False
    with 1 have "i = ?n" by simp
    then show ?thesis by (subst connectany_loop.simps) simp
  next
    case True
    define ix' where "ix' = (ix + 1) mod int ?n"
    have gr: "go_rem (ix + 1) (int ?n) = ix'"
      using 1(3) True unfolding ix'_def by (intro go_rem_nonneg) auto
    have npos: "0 < int ?n" using True by linarith
    have r: "0 \<le> ix'" "ix' < int ?n"
      unfolding ix'_def using npos by (rule pos_mod_sign, rule pos_mod_bound)
    note cs = cand_step[OF True, of ix, folded ix'_def]
    show ?thesis
      apply (subst connectany_loop.simps)
      apply (subst cs)
      using True r 1(1)[OF True gr[symmetric] _ refl] 1(2)[OF True gr[symmetric] _ refl]
      apply (simp add: gr Let_def probe_def split: sum.splits option.splits)
      done
  qed
qed

lemma scan_probed:
  "probed (scan E c ks es ps) =
     ps @ takeWhile (\<lambda>k. \<not> probe_ok E c (nat k)) ks
        @ take 1 (dropWhile (\<lambda>k. \<not> probe_ok E c (nat k)) ks)"
  by (induction ks arbitrary: es ps) (auto simp: probe_ok_def split: sum.splits)

lemma scan_all_fail:
  "\<forall>k \<in> set ks. \<not> probe_ok E c (nat k) \<Longrightarrow>
   \<exists>causes. scan E c ks es ps = \<lparr>conn = c, errs = es @ map Some causes, probed = ps @ ks\<rparr>
     \<and> length causes = length ks
     \<and> (\<forall>i < length ks. probe E c (nat (ks ! i)) = Inl (causes ! i))"
proof (induction ks arbitrary: es ps)
  case Nil
  then show ?case by simp
next
  case (Cons k ks)
  from Cons.prems obtain err where e: "probe E c (nat k) = Inl err"
    by (auto simp: probe_ok_def split: sum.splits)
  from Cons.prems have "\<forall>k \<in> set ks. \<not> probe_ok E c (nat k)" by simp
  from Cons.IH[OF this, of "es @ [Some err]" "ps @ [k]"]
  obtain causes where c:
    "scan E c ks (es @ [Some err]) (ps @ [k]) =
       \<lparr>conn = c, errs = (es @ [Some err]) @ map Some causes, probed = (ps @ [k]) @ ks\<rparr>"
    "length causes = length ks"
    "\<forall>i < length ks. probe E c (nat (ks ! i)) = Inl (causes ! i)"
    by blast
  have "\<forall>i < length (k # ks). probe E c (nat ((k # ks) ! i)) = Inl ((err # causes) ! i)"
    using e c(3) by (auto simp: nth_Cons split: nat.splits)
  with c(1,2) e show ?case
    by (intro exI[of _ "err # causes"]) simp
qed

lemma scan_first_ok:
  "ks = fs @ k # rest \<Longrightarrow> \<forall>j \<in> set fs. \<not> probe_ok E c (nat j) \<Longrightarrow> probe E c (nat k) = Inr d \<Longrightarrow>
   \<exists>causes. scan E c ks es ps =
       \<lparr>conn = c\<lparr>db := Some d, mru := k\<rparr>, errs = es @ map Some causes, probed = ps @ fs @ [k]\<rparr>
     \<and> length causes = length fs
     \<and> (\<forall>i < length fs. probe E c (nat (fs ! i)) = Inl (causes ! i))"
proof (induction fs arbitrary: ks es ps)
  case Nil
  then show ?case by simp
next
  case (Cons f fs)
  from Cons.prems obtain err where e: "probe E c (nat f) = Inl err"
    by (auto simp: probe_ok_def split: sum.splits)
  from Cons.prems have "\<forall>j \<in> set fs. \<not> probe_ok E c (nat j)" by simp
  from Cons.IH[OF refl this Cons.prems(3), of "es @ [Some err]" "ps @ [f]"]
  obtain causes where c:
    "scan E c (fs @ k # rest) (es @ [Some err]) (ps @ [f]) =
       \<lparr>conn = c\<lparr>db := Some d, mru := k\<rparr>, errs = (es @ [Some err]) @ map Some causes,
        probed = (ps @ [f]) @ fs @ [k]\<rparr>"
    "length causes = length fs"
    "\<forall>i < length fs. probe E c (nat (fs ! i)) = Inl (causes ! i)"
    by blast
  have "\<forall>i < length (f # fs). probe E c (nat ((f # fs) ! i)) = Inl ((err # causes) ! i)"
    using e c(3) by (auto simp: nth_Cons split: nat.splits)
  with c(1,2) e Cons.prems(1) show ?case
    by (intro exI[of _ "err # causes"]) simp
qed


section \<open>The rotation order\<close>

lemma length_rotation_order [simp]: "length (rotation_order m n) = n"
  by (simp add: rotation_order_def)

lemma rotation_order_nth:
  "i < n \<Longrightarrow> rotation_order m n ! i = (m + int (Suc i)) mod int n"
  by (simp add: rotation_order_def nth_append del: upt_Suc)

lemma rotation_order_range:
  "0 < n \<Longrightarrow> k \<in> set (rotation_order m n) \<Longrightarrow> 0 \<le> k \<and> k < int n"
  by (auto simp: rotation_order_def simp del: upt_Suc)

lemma distinct_rotation_order: "distinct (rotation_order m n)"
proof -
  have "inj_on (\<lambda>i. (m + int i) mod int n) (set [1..<Suc n])"
  proof (rule inj_onI)
    fix x y assume x: "x \<in> set [1..<Suc n]" and y: "y \<in> set [1..<Suc n]"
      and eq: "(m + int x) mod int n = (m + int y) mod int n"
    from eq have "(int x - int y) mod int n = 0"
      by (metis add_diff_cancel_left' mod_diff_cong mod_self diff_self mod_0)
    then have "int n dvd (int x - int y)" by (simp add: dvd_eq_mod_eq_0)
    moreover have "\<bar>int x - int y\<bar> < int n" using x y by auto
    ultimately have "int x - int y = 0"
      using dvd_imp_le_int[of "int x - int y" "int n"] by fastforce
    then show "x = y" by simp
  qed
  then show ?thesis
    unfolding rotation_order_def by (simp add: distinct_map del: upt_Suc)
qed

lemma rotation_order_never_connected: "rotation_order (- 1) n = map int [0..<n]"
proof (rule nth_equalityI)
  show "length (rotation_order (- 1) n) = length (map int [0..<n])" by simp
next
  fix i assume "i < length (rotation_order (- 1) n)"
  then have i: "i < n" by simp
  then show "rotation_order (- 1) n ! i = map int [0..<n] ! i"
    by (simp add: rotation_order_nth)
qed

lemma rotation_order_last:
  "0 \<le> m \<Longrightarrow> m < int n \<Longrightarrow> last (rotation_order m n) = m"
proof -
  assume m: "0 \<le> m" "m < int n"
  then have n: "0 < n" by simp
  then have "rotation_order m n \<noteq> []"
    by (simp add: rotation_order_def)
  then have "last (rotation_order m n) = rotation_order m n ! (n - 1)"
    by (simp add: last_conv_nth)
  also have "\<dots> = (m + int n) mod int n"
    using n by (simp add: rotation_order_nth)
  also have "\<dots> = m" using m by simp
  finally show ?thesis .
qed

lemma mru_valid_bounds:
  "mru_valid c \<Longrightarrow> connectors c \<noteq> [] \<Longrightarrow> - 1 \<le> mru c \<and> mru c < int (length (connectors c))"
  by (auto simp: mru_valid_def)

lemma rotation_pass_scan:
  assumes "connectors c \<noteq> []" "mru_valid c"
  shows "rotation_pass E c =
     Done (scan E c (rotation_order (mru c) (length (connectors c)))
             (replicate (length (connectors c)) None) [])"
proof -
  from mru_valid_bounds[OF assms(2,1)]
  have b: "- 1 \<le> mru c" "mru c < int (length (connectors c))" by simp_all
  show ?thesis
    unfolding rotation_pass_def rotation_order_def
    using loop_scan[OF b, of 0 E] by simp
qed


lemma all_fail_order:
  assumes "0 < n" and "\<forall>k < n. \<not> probe_ok E c k"
  shows "\<forall>k \<in> set (rotation_order m n). \<not> probe_ok E c (nat k)"
proof
  fix k assume "k \<in> set (rotation_order m n)"
  then have "0 \<le> k \<and> k < int n" by (rule rotation_order_range[OF assms(1)])
  then have "nat k < n" by (auto simp: nat_less_iff)
  with assms(2) show "\<not> probe_ok E c (nat k)" by blast
qed

lemma take_probed:
  "takeWhile P xs @ take 1 (dropWhile P xs) = take (Suc (length (takeWhile P xs))) xs"
  by (induction xs) simp_all

lemma take_length_take: "take (length (take m ys)) ys = take m ys"
  by (cases "m \<le> length ys") (simp_all add: min_def)

lemmas ex_defs = example_conn_def example_env_def three_conn_def unreachable_conn_def
  MockConnector_def open_only_a_def open_none_def

text \<open>
  Claim C5. With \<open>N \<ge> 1\<close> connectors and \<open>mru = m\<close> (\<open>-1\<close> or an index), one pass
  of the rotation probes the candidates in the order \<open>(m+1) mod N\<close>, \<open>(m+2) mod N\<close>, ...,
  up to and including the first candidate that opens and pings, and through the whole
  order when none does. No candidate is probed twice, every probed index is an index of
  \<open>connectors\<close>, and at most \<open>N\<close> candidates are probed. For \<open>m = -1\<close> the order is
  \<open>0, 1, ..., N-1\<close>; for an index \<open>m\<close> it ends with \<open>m\<close>.
\<close>

theorem rotation_pass_order:
  assumes "connectors c \<noteq> []" and "mru_valid c"
  shows "\<exists>st. rotation_pass E c = Done st
    \<and> probed st =
        takeWhile (\<lambda>k. \<not> probe_ok E c (nat k)) (rotation_order (mru c) (length (connectors c)))
        @ take 1 (dropWhile (\<lambda>k. \<not> probe_ok E c (nat k))
                    (rotation_order (mru c) (length (connectors c))))
    \<and> probed st = take (length (probed st)) (rotation_order (mru c) (length (connectors c)))
    \<and> ((\<forall>k < length (connectors c). \<not> probe_ok E c k) \<longrightarrow>
          probed st = rotation_order (mru c) (length (connectors c)))
    \<and> distinct (probed st)
    \<and> (\<forall>k \<in> set (probed st). 0 \<le> k \<and> k < int (length (connectors c)))
    \<and> length (probed st) \<le> length (connectors c)
    \<and> (mru c = - 1 \<longrightarrow>
          rotation_order (mru c) (length (connectors c)) = map int [0..<length (connectors c)])
    \<and> (0 \<le> mru c \<longrightarrow> last (rotation_order (mru c) (length (connectors c))) = mru c)"
proof -
  let ?n = "length (connectors c)"
  let ?order = "rotation_order (mru c) ?n"
  let ?P = "\<lambda>k. \<not> probe_ok E c (nat k)"
  let ?st = "scan E c ?order (replicate ?n None) []"
  have n: "0 < ?n" using assms(1) by simp
  have b: "- 1 \<le> mru c" "mru c < int ?n" using mru_valid_bounds[OF assms(2,1)] by simp_all
  have run: "rotation_pass E c = Done ?st" by (rule rotation_pass_scan[OF assms])
  have p: "probed ?st = takeWhile ?P ?order @ take 1 (dropWhile ?P ?order)"
    by (simp add: scan_probed)
  then have t: "probed ?st = take (Suc (length (takeWhile ?P ?order))) ?order"
    by (simp only: take_probed)
  have len: "length (probed ?st) \<le> ?n"
    unfolding t by simp
  have pre: "probed ?st = take (length (probed ?st)) ?order"
    unfolding t by (simp only: take_length_take)
  have all: "(\<forall>k < ?n. \<not> probe_ok E c k) \<longrightarrow> probed ?st = ?order"
  proof
    assume "\<forall>k < ?n. \<not> probe_ok E c k"
    then have "\<forall>k \<in> set ?order. ?P k"
      by (rule all_fail_order[OF n])
    then have tw: "takeWhile ?P ?order = ?order" and dw: "dropWhile ?P ?order = []"
      by simp_all
    show "probed ?st = ?order" unfolding p tw dw by simp
  qed
  have d: "distinct (probed ?st)"
    by (subst pre) (rule distinct_take[OF distinct_rotation_order])
  have r: "\<forall>k \<in> set (probed ?st). 0 \<le> k \<and> k < int ?n"
  proof
    fix k assume "k \<in> set (probed ?st)"
    then have "k \<in> set ?order" by (subst (asm) pre) (rule in_set_takeD)
    then show "0 \<le> k \<and> k < int ?n" by (rule rotation_order_range[OF n])
  qed
  have never: "mru c = - 1 \<longrightarrow> ?order = map int [0..<?n]"
    by (simp add: rotation_order_never_connected)
  have lst: "0 \<le> mru c \<longrightarrow> last ?order = mru c"
    using b(2) by (simp add: rotation_order_last)
  from run p pre all d r len never lst show ?thesis by blast
qed

lemma three_conn_probes:
  "\<not> probe_ok example_env three_conn (nat 1)" "\<not> probe_ok example_env three_conn (nat 2)"
  "probe_ok example_env three_conn (nat 0)"
  by (simp_all add: probe_ok_def probe_def ex_defs)

lemma three_conn_order: "rotation_order (mru three_conn) (length (connectors three_conn)) = [1, 2, 0]"
  by (simp add: rotation_order_def ex_defs)

theorem rotation_pass_order_witness:
  "connectors three_conn \<noteq> [] \<and> mru_valid three_conn
   \<and> (\<exists>st. rotation_pass example_env three_conn = Done st \<and> probed st = [1, 2, 0])"
proof -
  have h1: "connectors three_conn \<noteq> []" by (simp add: ex_defs)
  have h2: "mru_valid three_conn" by (simp add: mru_valid_def ex_defs)
  from rotation_pass_order [OF h1 h2, of example_env]
  obtain st where st: "rotation_pass example_env three_conn = Done st"
    "probed st =
       takeWhile (\<lambda>k. \<not> probe_ok example_env three_conn (nat k))
         (rotation_order (mru three_conn) (length (connectors three_conn)))
       @ take 1 (dropWhile (\<lambda>k. \<not> probe_ok example_env three_conn (nat k))
                   (rotation_order (mru three_conn) (length (connectors three_conn))))"
    by blast
  have "probed st = [1, 2, 0]"
    unfolding st(2) three_conn_order
    by (simp only: takeWhile.simps dropWhile.simps three_conn_probes if_True if_False
        not_True_eq_False not_False_eq_True append.simps take_Suc_Cons take_0 One_nat_def)
  with st(1) h1 h2 show ?thesis by blast
qed

section \<open>A pass in which every candidate fails\<close>

lemma errors_Join_causes:
  "errors_Join (replicate n None @ map Some es) = (if es = [] then None else Some (JoinError es))"
proof -
  have "List.map_filter id (replicate n None @ map Some es) = es"
    by (induction n) (simp_all add: List.map_filter_def o_def)
  then show ?thesis by (simp add: errors_Join_def)
qed

lemma probe_Inl_shape:
  "probe E c k = Inl e \<Longrightarrow> \<exists>what err. e = ConnectionError (connectors c ! k) what err"
  by (auto simp: probe_def Let_def split: sum.splits option.splits)

text \<open>
  Claim C4. With \<open>N \<ge> 1\<close> connectors, when every candidate fails to open or to ping,
  \<open>connectany\<close> leaves the connection as it was (\<open>mru\<close>, the handle, also when there is
  none, and everything else) and returns a \<open>ConnectionFailedError\<close> that wraps the join
  of exactly \<open>N\<close> causes: the \<open>i\<close>-th cause is the \<open>ConnectionError\<close> of the candidate
  probed \<open>i\<close>-th, so the causes stand in the order of the attempts.
\<close>

theorem connectany_all_fail:
  assumes "connectors c \<noteq> []" and "mru_valid c"
    and "\<forall>k < length (connectors c). \<not> probe_ok E c k"
  shows "\<exists>causes.
      connectany E c = (Done (Some (ConnectionFailedError (Some (JoinError causes)))), c)
    \<and> length causes = length (connectors c)
    \<and> (\<forall>i < length (connectors c).
          probe E c (nat (rotation_order (mru c) (length (connectors c)) ! i)) = Inl (causes ! i)
        \<and> (\<exists>what err. causes ! i =
              ConnectionError
                (connectors c ! nat (rotation_order (mru c) (length (connectors c)) ! i))
                what err))"
proof -
  let ?n = "length (connectors c)"
  let ?order = "rotation_order (mru c) ?n"
  have n: "0 < ?n" using assms(1) by simp
  have "\<forall>k \<in> set ?order. \<not> probe_ok E c (nat k)"
    by (rule all_fail_order[OF n assms(3)])
  from scan_all_fail[OF this, of "replicate ?n None" "[]"]
  obtain causes where c:
    "scan E c ?order (replicate ?n None) [] =
       \<lparr>conn = c, errs = replicate ?n None @ map Some causes, probed = [] @ ?order\<rparr>"
    "length causes = length ?order"
    "\<forall>i < length ?order. probe E c (nat (?order ! i)) = Inl (causes ! i)"
    by blast
  from c(2) n have ne: "causes \<noteq> []" by auto
  have "connectany E c = (Done (Some (ConnectionFailedError (Some (JoinError causes)))), c)"
    unfolding connectany_def rotation_pass_scan[OF assms(1,2)] c(1)
    using ne by (simp add: errors_Join_causes)
  moreover have "length causes = ?n" using c(2) by simp
  moreover have "\<forall>i < ?n. probe E c (nat (?order ! i)) = Inl (causes ! i)
        \<and> (\<exists>what err. causes ! i = ConnectionError (connectors c ! nat (?order ! i)) what err)"
    using c(3) probe_Inl_shape by fastforce
  ultimately show ?thesis by blast
qed

theorem connectany_all_fail_witness:
  "connectors unreachable_conn \<noteq> [] \<and> mru_valid unreachable_conn
   \<and> \<not> probe_ok example_env unreachable_conn 0
   \<and> \<not> probe_ok example_env unreachable_conn 1
   \<and> (\<exists>causes.
        connectany example_env unreachable_conn =
          (Done (Some (ConnectionFailedError (Some (JoinError causes)))), unreachable_conn)
      \<and> length causes = 2)"
proof -
  have h1: "connectors unreachable_conn \<noteq> []"
    by (simp add: unreachable_conn_def example_conn_def)
  have h2: "mru_valid unreachable_conn"
    by (simp add: mru_valid_def unreachable_conn_def example_conn_def)
  have p: "\<not> probe_ok example_env unreachable_conn 0"
    "\<not> probe_ok example_env unreachable_conn 1"
    by (simp_all add: probe_ok_def probe_def unreachable_conn_def example_conn_def open_none_def)
  have h3: "\<forall>k < length (connectors unreachable_conn). \<not> probe_ok example_env unreachable_conn k"
    by (simp add: probe_ok_def probe_def unreachable_conn_def example_conn_def open_none_def)
  have l: "length (connectors unreachable_conn) = 2"
    by (simp add: unreachable_conn_def example_conn_def)
  from connectany_all_fail [OF h1 h2 h3] l
  have "\<exists>causes.
        connectany example_env unreachable_conn =
          (Done (Some (ConnectionFailedError (Some (JoinError causes)))), unreachable_conn)
      \<and> length causes = 2"
    by auto
  with h1 h2 p show ?thesis by blast
qed

text \<open>
  On the example, connected through index 0, the attempts are \<open>b\<close> and then \<open>a\<close>.
\<close>

lemma connectany_unreachable_value:
  "connectany example_env unreachable_conn =
     (Done (Some (ConnectionFailedError (Some (JoinError
        [ConnectionError (MockConnector ''b'') ''open db'' (ErrorsNew ''open error''),
         ConnectionError (MockConnector ''a'') ''open db'' (ErrorsNew ''open error'')])))),
      unreachable_conn)"
  by (simp add: connectany_def rotation_pass_def connectany_loop.simps go_rem_def Let_def
      errors_Join_def List.map_filter_def unreachable_conn_def example_conn_def open_none_def
      MockConnector_def)

section \<open>A pass in which a candidate succeeds\<close>

text \<open>
  When the candidate \<open>k\<close> is the first of the rotation order that opens and pings,
  \<open>connectany\<close> installs its handle and sets \<open>mru\<close> to \<open>k\<close>. What it returns depends on
  the test \<open>c.mru == curr\<close>: for \<open>k\<close> other than the old \<open>mru\<close> it returns \<open>nil\<close> (or the
  error of the configuration hook), for \<open>k\<close> equal to the old \<open>mru\<close> it returns a
  \<open>ConnectionFailedError\<close> although the handle is installed.
\<close>

lemma connectany_snd: "snd (connectany E c) =
   (case rotation_pass E c of Panicked \<Rightarrow> c | Done st \<Rightarrow> conn st)"
  by (simp add: connectany_def Let_def split: exec.splits option.splits)

lemma connectany_first_success:
  assumes "connectors c \<noteq> []" and "mru_valid c"
    and "rotation_order (mru c) (length (connectors c)) = fs @ k # rest"
    and "\<forall>j \<in> set fs. \<not> probe_ok E c (nat j)"
    and "probe E c (nat k) = Inr d"
  shows "snd (connectany E c) = c\<lparr>db := Some d, mru := k\<rparr>"
    and "k \<noteq> mru c \<Longrightarrow> configure c = None \<Longrightarrow> fst (connectany E c) = Done None"
    and "k \<noteq> mru c \<Longrightarrow> configure c = Some h \<Longrightarrow>
         fst (connectany E c) = Done (map_option ConfigurationError (h (Some d)))"
    and "k = mru c \<Longrightarrow> \<exists>e. fst (connectany E c) = Done (Some (ConnectionFailedError e))"
proof -
  let ?n = "length (connectors c)"
  from scan_first_ok[OF assms(3,4,5), of "replicate ?n None" "[]"]
  obtain causes where s:
    "scan E c (rotation_order (mru c) ?n) (replicate ?n None) [] =
       \<lparr>conn = c\<lparr>db := Some d, mru := k\<rparr>, errs = replicate ?n None @ map Some causes,
        probed = [] @ fs @ [k]\<rparr>"
    by blast
  note run = rotation_pass_scan[OF assms(1,2), of E, unfolded s]
  show "snd (connectany E c) = c\<lparr>db := Some d, mru := k\<rparr>"
    by (simp add: connectany_snd run)
  show "k \<noteq> mru c \<Longrightarrow> configure c = None \<Longrightarrow> fst (connectany E c) = Done None"
    by (simp add: connectany_def run)
  show "k \<noteq> mru c \<Longrightarrow> configure c = Some h \<Longrightarrow>
         fst (connectany E c) = Done (map_option ConfigurationError (h (Some d)))"
    by (simp add: connectany_def run Let_def split: option.splits)
  show "k = mru c \<Longrightarrow> \<exists>e. fst (connectany E c) = Done (Some (ConnectionFailedError e))"
    by (simp add: connectany_def run)
qed

text \<open>
  Claim C1. The claim asks that \<open>connectany\<close> returns \<open>nil\<close> whenever a candidate
  opens and pings, also when the first such candidate is the connector at the current
  \<open>mru\<close> index. The code does not: on the example connection (connectors \<open>a\<close> and \<open>b\<close>,
  \<open>mru = 0\<close>, no configuration hook), \<open>b\<close> cannot be opened and \<open>a\<close> opens and pings;
  \<open>connectany\<close> installs the new handle of \<open>a\<close>, leaves \<open>mru = 0\<close>, and returns a
  \<open>ConnectionFailedError\<close> that wraps the error of \<open>b\<close>.
\<close>

theorem connectany_mru_candidate_reported_failed:
  "probe example_env example_conn 0 = Inr (DB 1)
   \<and> connectany example_env example_conn =
     (Done (Some (ConnectionFailedError (Some (JoinError
        [ConnectionError (MockConnector ''b'') ''open db'' (ErrorsNew ''open error'')])))),
      example_conn\<lparr>db := Some (DB 1), mru := 0\<rparr>)"
  by (simp add: connectany_def rotation_pass_def connectany_loop.simps go_rem_def Let_def
      errors_Join_def List.map_filter_def probe_def ex_defs)

section \<open>The invariant of mru\<close>


lemma probe_db_irrelevant [simp]: "probe E (c\<lparr>db := x\<rparr>) k = probe E c k"
  by (simp add: probe_def)

lemma mru_valid_db [simp]: "mru_valid (c\<lparr>db := x\<rparr>) = mru_valid c"
  by (simp add: mru_valid_def)

lemma close_snd: "snd (close E c force) = c \<or> snd (close E c force) = c\<lparr>db := None\<rparr>"
  by (auto simp: close_def Let_def split: option.splits)







lemma probe_close [simp]: "probe E (snd (close E c force)) k = probe E c k"
  using close_snd[of E c force] by auto





lemma add_connectors_mru [simp]: "mru (add_connectors xs c) = mru c"
  by (induction xs arbitrary: c) simp_all









section \<open>The rotate-and-retry strategy\<close>

text \<open>
  Claim C8. For the rotate-and-retry strategy: when the operation fails with an error
  that is not classified as a bad connection, \<open>try\<close> returns that very error after
  exactly one invocation of the operation and without any rotation; the connection is
  left as it was.
\<close>

theorem retry_try_other_error:
  "f (db c) s = (Done (Some err), s') \<Longrightarrow> \<not> is_bad_conn err \<Longrightarrow>
   retry_try E f c s =
     Some \<lparr>result = Done (Some err), tconn = c, closure = s', calls = 1, rotations = 0\<rparr>"
  by (simp add: retry_try_def retry_loop.simps)

theorem retry_try_other_error_witness:
  "failing_op (db example_conn) 0 = (Done (Some (ErrorsNew ''sql error'')), 1)
   \<and> \<not> is_bad_conn (ErrorsNew ''sql error'')
   \<and> retry_try example_env failing_op example_conn 0 =
     Some \<lparr>result = Done (Some (ErrorsNew ''sql error'')), tconn = example_conn, closure = 1,
           calls = 1, rotations = 0\<rparr>"
proof -
  have h: "failing_op (db example_conn) 0 = (Done (Some (ErrorsNew ''sql error'')), 1)"
    by (simp add: failing_op_def)
  have b: "\<not> is_bad_conn (ErrorsNew ''sql error'')" by simp
  show ?thesis
    using h b
      retry_try_other_error [of failing_op example_conn 0 "ErrorsNew ''sql error''" 1 example_env]
    by simp
qed

text \<open>
  When the operation fails with a bad connection and \<open>reconnect\<close> reports success, the
  operation is invoked a second time on the new handle; when \<open>reconnect\<close> reports an
  error, \<open>try\<close> returns the join of both errors after a single invocation.
\<close>

lemma retry_try_second_attempt:
  assumes "f (db c) s = (Done (Some err), s1)" and "is_bad_conn err"
    and "reconnect E c = (Done None, c')" and "f (db c') s1 = (Done None, s2)"
  shows "retry_try E f c s =
     Some \<lparr>result = Done None, tconn = c', closure = s2, calls = 2, rotations = 1\<rparr>"
  unfolding retry_try_def
  by (subst retry_loop.simps, simp add: assms, subst retry_loop.simps, simp add: assms)

lemma retry_try_rotation_fails:
  assumes "f (db c) s = (Done (Some err), s1)" and "is_bad_conn err"
    and "reconnect E c = (Done (Some cncerr), c')"
  shows "retry_try E f c s =
     Some \<lparr>result = Done (Some (JoinError [err, cncerr])), tconn = c', closure = s1,
           calls = 1, rotations = 1\<rparr>"
  unfolding retry_try_def
  by (subst retry_loop.simps) (simp add: assms errors_Join_def List.map_filter_def)

text \<open>
  Claim C2. The claim asks that \<open>try\<close> succeeds after one rotation and two invocations
  whenever the operation fails with a bad connection once and some connector can be
  connected. The code does not when that connector is the one at the current \<open>mru\<close>
  index: on the example connection the operation fails with \<open>driver.ErrBadConn\<close>,
  \<open>reconnect\<close> installs a new handle of \<open>a\<close> and reports a \<open>ConnectionFailedError\<close>, and
  \<open>try\<close> returns the join of both errors after one invocation, although the operation
  would have succeeded on the new handle.
\<close>

theorem retry_try_mru_candidate_not_retried:
  "flaky (db example_conn) 0 = (Done (Some ErrBadConn), 1)
   \<and> flaky (Some (DB 1)) 1 = (Done None, 2)
   \<and> probe_ok example_env example_conn 0
   \<and> retry_try example_env flaky example_conn 0 =
     Some \<lparr>result = Done (Some (JoinError
              [ErrBadConn,
               ConnectionFailedError (Some (JoinError
                 [ConnectionError (MockConnector ''b'') ''open db'' (ErrorsNew ''open error'')]))])),
           tconn = example_conn\<lparr>db := Some (DB 1), mru := 0\<rparr>, closure = 1, calls = 1,
           rotations = 1\<rparr>"
  by (simp add: retry_try_def retry_loop.simps reconnect_def close_def flaky_def
      connectany_def rotation_pass_def connectany_loop.simps go_rem_def Let_def
      errors_Join_def List.map_filter_def probe_ok_def probe_def ex_defs)

section \<open>Transactions\<close>

lemmas transact_defs = Transact_def transact_tx_def deferred_def errors_Join_def
  List.map_filter_def

lemma single_conn_begin:
  "try_call E (begin_op E) single_conn None =
     Some (noretry_try (begin_op E) single_conn None)"
  by (simp add: try_call_def single_conn_def)

lemma single_conn_begun:
  "BeginTx E (DB 1) = Inr t \<Longrightarrow>
   noretry_try (begin_op E) single_conn None =
     \<lparr>result = Done None, tconn = single_conn, closure = Some t, calls = 1, rotations = 0\<rparr>"
  by (simp add: noretry_try_def begin_op_def single_conn_def)

lemma begin_example: "BeginTx example_env (DB 1) = Inr (Tx 7)"
  by (simp add: example_env_def)

lemma begin_rollback_fails: "BeginTx rollback_fails_env (DB 1) = Inr (Tx 7)"
  by (simp add: rollback_fails_env_def example_env_def)

text \<open>
  Claim C3, as the claim states it, fails: when the unit of work returns \<open>nil\<close> the
  rollback flag is cleared before the commit, and no rollback is attempted. On the
  example the only call on the transaction is the commit.
\<close>

theorem transact_normal_return_no_rollback:
  "Transact example_env single_conn ''test'' uow_ok =
     Some \<lparr>terr = Done None, tx_calls = [CommitCall], after = single_conn\<rparr>
   \<and> count_list [CommitCall] RollbackCall = 0"
  by (simp add: transact_defs try_call_def noretry_try_def begin_op_def single_conn_def
      example_env_def uow_ok_def)

text \<open>
  Claim C3, amended. Once a transaction has been begun, rollback is attempted exactly
  once when the unit of work returns an error and when it panics; when it returns
  \<open>nil\<close>, rollback is not attempted and commit is attempted exactly once.
\<close>

theorem transact_rollback_count:
  assumes "try_call E (begin_op E) c None = Some r"
    and "result r = Done None" and "closure r = Some t"
  shows "\<exists>res. Transact E c name uow = Some res
    \<and> count_list (tx_calls res) RollbackCall =
        (case uow (Some t) of Returns None \<Rightarrow> 0 | Returns (Some e) \<Rightarrow> 1 | Panics \<Rightarrow> 1)
    \<and> count_list (tx_calls res) CommitCall =
        (case uow (Some t) of Returns None \<Rightarrow> 1 | Returns (Some e) \<Rightarrow> 0 | Panics \<Rightarrow> 0)"
  using assms by (auto simp: transact_defs Let_def split: option.splits exit.splits)

theorem transact_rollback_count_witness:
  "(\<exists>res. Transact example_env single_conn ''test'' uow_fails = Some res
      \<and> count_list (tx_calls res) RollbackCall = 1 \<and> count_list (tx_calls res) CommitCall = 0)
   \<and> (\<exists>res. Transact example_env single_conn ''test'' uow_panics = Some res
      \<and> count_list (tx_calls res) RollbackCall = 1 \<and> count_list (tx_calls res) CommitCall = 0)
   \<and> (\<exists>res. Transact example_env single_conn ''test'' uow_ok = Some res
      \<and> count_list (tx_calls res) RollbackCall = 0 \<and> count_list (tx_calls res) CommitCall = 1)"
proof -
  have b: "noretry_try (begin_op example_env) single_conn None =
     \<lparr>result = Done None, tconn = single_conn, closure = Some (Tx 7), calls = 1, rotations = 0\<rparr>"
    by (rule single_conn_begun[OF begin_example])
  have r: "result (noretry_try (begin_op example_env) single_conn None) = Done None"
    and c: "closure (noretry_try (begin_op example_env) single_conn None) = Some (Tx 7)"
    by (simp_all add: b)
  note t = transact_rollback_count [OF single_conn_begin r c, of "''test''"]
  from t [of uow_fails] t [of uow_panics] t [of uow_ok]
  show ?thesis
    by (simp add: uow_fails_def uow_panics_def uow_ok_def)
qed




text \<open>
  Claim C7. When the unit of work returns an error, rollback is attempted exactly once
  (and commit never). When the rollback succeeds, the returned error is the Transaction
  error with the empty tag whose cause is the error of the unit of work; when the
  rollback fails, the returned error joins the error of the unit of work, in that
  untagged Transaction error, with a Transaction error tagged \<open>rollback\<close> that wraps the
  rollback failure.
\<close>

theorem transact_uow_error:
  assumes "try_call E (begin_op E) c None = Some r"
    and "result r = Done None" and "closure r = Some t"
    and "uow (Some t) = Returns (Some e)"
  shows "Transact E c name uow =
     Some \<lparr>terr = Done (Some (case Rollback E t of
               None \<Rightarrow> TransactionError name '''' e
             | Some rb \<Rightarrow>
                 JoinError [TransactionError name '''' e, TransactionError name ''rollback'' rb])),
           tx_calls = [RollbackCall], after = tconn r\<rparr>"
  using assms by (simp add: transact_defs split: option.splits)

theorem transact_uow_error_witness:
  "Transact example_env single_conn ''test'' uow_fails =
     Some \<lparr>terr = Done (Some (TransactionError ''test'' '''' (ErrorsNew ''operation error''))),
           tx_calls = [RollbackCall], after = single_conn\<rparr>
   \<and> Transact rollback_fails_env single_conn ''test'' uow_fails =
     Some \<lparr>terr = Done (Some (JoinError
              [TransactionError ''test'' '''' (ErrorsNew ''operation error''),
               TransactionError ''test'' ''rollback'' (ErrorsNew ''rollback error'')])),
           tx_calls = [RollbackCall], after = single_conn\<rparr>"
proof -
  have u: "uow_fails (Some (Tx 7)) = Returns (Some (ErrorsNew ''operation error''))"
    by (simp add: uow_fails_def)
  have r1: "Rollback example_env (Tx 7) = None" by (simp add: example_env_def)
  have r2: "Rollback rollback_fails_env (Tx 7) = Some (ErrorsNew ''rollback error'')"
    by (simp add: rollback_fails_env_def)
  show ?thesis
    using transact_uow_error [OF single_conn_begin, of example_env "Tx 7" uow_fails
        "ErrorsNew ''operation error''" "''test''"]
      transact_uow_error [OF single_conn_begin, of rollback_fails_env "Tx 7" uow_fails
        "ErrorsNew ''operation error''" "''test''"]
    by (simp add: single_conn_begun[OF begin_example] single_conn_begun[OF begin_rollback_fails]
        u r1 r2)
qed

section \<open>Configuration\<close>



lemma set_first_occurrences [simp]: "set (first_occurrences xs) = set xs"
  by (simp add: first_occurrences_def)

lemma distinct_first_occurrences [simp]: "distinct (first_occurrences xs)"
  by (simp add: first_occurrences_def)







end
